theory Spec2Isabelle
  imports Complex_Main
begin

section \<open>OPi.GPIO: channel registry and PWM controller\<close>

text \<open>
  A shallow embedding of \<^verbatim>\<open>GPIO.py\<close> and \<^verbatim>\<open>pin_mappings.py\<close>. The module globals
  (\<^verbatim>\<open>_gpio_warnings\<close>, \<^verbatim>\<open>_mode\<close>, \<^verbatim>\<open>_exports\<close>, \<^verbatim>\<open>_pin_map[CUSTOM]\<close>) are the fields
  of one record that every function takes and returns. A Python exception is the \<open>Inl\<close>
  of the result, paired with the state at the moment of the raise, so that what an
  aborted call has already done stays visible.
\<close>

subsection \<open>Constants and data\<close>

datatype direction = IN | OUT

datatype mode = BCM | BOARD | SUNXI | CUSTOM

datatype trigger = RISING | FALLING | BOTH

type_synonym channel = int

text \<open>The \<^verbatim>\<open>state\<close> argument of \<^verbatim>\<open>output\<close>: one level, or a tuple of levels.\<close>

datatype state = Level bool | Levels "bool list"

text \<open>Channel arguments: a single channel, or a Python \<^verbatim>\<open>list\<close> of channels.\<close>

datatype channels = One channel | Many "channel list"

text \<open>The argument of \<^verbatim>\<open>setmode\<close>: a built-in constant, or an object with \<^verbatim>\<open>__getitem__\<close>.\<close>

datatype mode_arg = Scheme mode | Mapping "(channel \<times> int) list"

datatype error =
    NotInitialized
  | AlreadyConfigured channel
  | NotConfigured channel
  | WrongDirection channel direction
  | AssertionError
  | UnknownScheme mode
  | UnknownChannel channel
  | OSError nat
  | ZeroDivisionError
  | OverflowError

text \<open>
  The first four are the \<^verbatim>\<open>RuntimeError\<close>s of \<^verbatim>\<open>GPIO.py\<close>, told apart by their message;
  \<open>UnknownScheme\<close> and \<open>UnknownChannel\<close> are the \<^verbatim>\<open>KeyError\<close>s of the two table
  lookups; \<open>OSError n\<close> carries \<^verbatim>\<open>errno\<close>, where 16 is "device or resource busy";
  \<open>OverflowError\<close> is what \<^verbatim>\<open>int\<close> raises on a float that is not finite.
\<close>

text \<open>Calls into \<^verbatim>\<open>OPi.sysfs\<close> and \<^verbatim>\<open>OPi.event\<close>, with their arguments.\<close>

datatype call =
    Export int
  | Unexport int
  | Direction int direction
  | Output int state
  | Input int
  | Add_edge_detect int trigger "(nat \<times> channel) option"
  | Add_edge_callback int "(nat \<times> channel) option"
  | Event_cleanup int
  | PWM_Export int int
  | PWM_Unexport int int
  | PWM_Polarity int int bool
  | PWM_Enable int int
  | PWM_Disable int int
  | PWM_Frequency int int rat
  | PWM_Period int int int
  | PWM_Duty_Cycle int int int
  | PWM_Duty_Cycle_Percent int int rat

datatype warning =
    PullUpDownUnsupported
  | BouncetimeUnsupported
  | ChannelInUse channel
  | PinInUse int

text \<open>What the outside world sees: a call with its outcome (\<^verbatim>\<open>errno\<close> if it failed), or a
  \<^verbatim>\<open>warnings.warn\<close>.\<close>

datatype event = Call call "nat option" | Warn warning

record world =
  gpio_warnings :: bool
  mode :: "mode option"
  exports :: "(channel \<times> direction) list"
  custom_pin_map :: "(channel \<times> int) list"
  faults :: "nat option list"
  high :: "int set"
  trace :: "event list"

text \<open>
  \<open>exports\<close> is the dict \<^verbatim>\<open>_exports\<close> in insertion order (the order of
  \<^verbatim>\<open>list(_exports.keys())\<close>). \<open>trace\<close> is the log of everything the module did to
  the outside. \<open>faults\<close> and \<open>high\<close> stand for the kernel: the outcome of each
  coming call, in order, and the pins that currently read HIGH.
\<close>

type_synonym 'a result = "(error + 'a) \<times> world"

subsection \<open>The file layer\<close>

text \<open>
  Modelled from the spec: the modules \<^verbatim>\<open>OPi.sysfs\<close> and \<^verbatim>\<open>OPi.event\<close> (Pin File I/O).
  Each operation either completes or fails with an OS error, "each failing with a
  resource-busy indicator distinguishable from other I/O failures". Which of the two
  happens is read off \<open>faults\<close>, one entry per call (\<open>fault_at fs i\<close> is the outcome of
  the call after the next \<open>i\<close>), so every behaviour of the file layer is some value of
  that list; an exhausted list means success.
\<close>

definition fault_at :: "nat option list \<Rightarrow> nat \<Rightarrow> nat option" where
  "fault_at fs i = (if i < length fs then fs ! i else None)"

definition sysfs :: "call \<Rightarrow> world \<Rightarrow> unit result" where
  "sysfs c w =
     (let w' = w\<lparr>faults := tl (faults w), trace := trace w @ [Call c (fault_at (faults w) 0)]\<rparr>
      in case fault_at (faults w) 0 of
           None \<Rightarrow> (Inr (), w')
         | Some e \<Rightarrow> (Inl (OSError e), w'))"

text \<open>Straight-line code: the calls in order, up to the first one that raises.\<close>

fun calls :: "call list \<Rightarrow> world \<Rightarrow> unit result" where
  "calls [] w = (Inr (), w)"
| "calls (c # cs) w =
     (case sysfs c w of
        (Inl e, w') \<Rightarrow> (Inl e, w')
      | (Inr _, w') \<Rightarrow> calls cs w')"

definition warn :: "warning \<Rightarrow> world \<Rightarrow> world" where
  "warn m w = w\<lparr>trace := trace w @ [Warn m]\<rparr>"

subsection \<open>pin\_mappings.py\<close>

definition board_map :: "(channel \<times> int) list" where
  "board_map =
     [(3, 47), (5, 46), (7, 54), (8, 131), (10, 132), (12, 29), (11, 138), (13, 139),
      (15, 28), (16, 59), (18, 58), (19, 49), (21, 48), (22, 92), (24, 52), (23, 50),
      (26, 35)]"

definition pin_map :: "world \<Rightarrow> mode \<Rightarrow> (channel \<times> int) list option" where
  "pin_map w m =
     (case m of BOARD \<Rightarrow> Some board_map | CUSTOM \<Rightarrow> Some (custom_pin_map w) | _ \<Rightarrow> None)"

definition set_custom_pin_mappings :: "(channel \<times> int) list \<Rightarrow> world \<Rightarrow> world" where
  "set_custom_pin_mappings mappings w = w\<lparr>custom_pin_map := mappings\<rparr>"

text \<open>
  \<^verbatim>\<open>assert mode in [BOARD]\<close>, then \<^verbatim>\<open>_pin_map[mode][channel]\<close>. The mode is optional
  because \<^verbatim>\<open>_mode\<close> is \<^verbatim>\<open>None\<close> until \<^verbatim>\<open>setmode\<close> is called.
\<close>

definition get_gpio_pin :: "world \<Rightarrow> mode option \<Rightarrow> channel \<Rightarrow> error + int" where
  "get_gpio_pin w m ch =
     (if m \<notin> set [Some BOARD] then Inl AssertionError
      else case pin_map w (the m) of
             None \<Rightarrow> Inl (UnknownScheme (the m))
           | Some tbl \<Rightarrow>
               (case map_of tbl ch of
                  None \<Rightarrow> Inl (UnknownChannel ch)
                | Some p \<Rightarrow> Inr p))"

subsection \<open>GPIO.py: the registry\<close>

definition check_configured :: "world \<Rightarrow> channel \<Rightarrow> direction option \<Rightarrow> error option" where
  "check_configured w ch d =
     (case map_of (exports w) ch of
        None \<Rightarrow> Some (NotConfigured ch)
      | Some configured \<Rightarrow>
          (if d \<noteq> None \<and> d \<noteq> Some configured then Some (WrongDirection ch configured)
           else None))"

definition getmode :: "world \<Rightarrow> mode option" where
  "getmode w = mode w"

definition setmode :: "mode_arg \<Rightarrow> world \<Rightarrow> unit result" where
  "setmode a w =
     (let (m, w1) = (case a of
                       Mapping tbl \<Rightarrow> (CUSTOM, set_custom_pin_mappings tbl w)
                     | Scheme m \<Rightarrow> (m, w))
      in if m \<in> set [BCM, BOARD, SUNXI, CUSTOM] then (Inr (), w1\<lparr>mode := Some m\<rparr>)
         else (Inl AssertionError, w1))"

definition setwarnings :: "bool \<Rightarrow> world \<Rightarrow> world" where
  "setwarnings enabled w = w\<lparr>gpio_warnings := enabled\<rparr>"

text \<open>The \<^verbatim>\<open>try\<close>/\<^verbatim>\<open>except\<close> around \<^verbatim>\<open>sysfs.export(pin)\<close> in \<^verbatim>\<open>setup\<close>.\<close>

definition export_or_retry :: "channel \<Rightarrow> int \<Rightarrow> world \<Rightarrow> unit result" where
  "export_or_retry ch p w =
     (case sysfs (Export p) w of
        (Inr u, w1) \<Rightarrow> (Inr u, w1)
      | (Inl (OSError e), w1) \<Rightarrow>
          (if e = 16 then
             calls [Unexport p, Export p]
               (if gpio_warnings w1 then warn (ChannelInUse ch) w1 else w1)
           else (Inl (OSError e), w1))
      | (Inl x, w1) \<Rightarrow> (Inl x, w1))"

text \<open>The \<^verbatim>\<open>else\<close> branch of \<^verbatim>\<open>setup\<close>: one channel, after the mode check and the
  pull-up/down warning.\<close>

definition setup_channel ::
  "channel \<Rightarrow> direction \<Rightarrow> state option \<Rightarrow> world \<Rightarrow> unit result" where
  "setup_channel ch d initial w =
     (if ch \<in> fst ` set (exports w) then (Inl (AlreadyConfigured ch), w)
      else case get_gpio_pin w (mode w) ch of
             Inl e \<Rightarrow> (Inl e, w)
           | Inr p \<Rightarrow>
               (case export_or_retry ch p w of
                  (Inl e, w1) \<Rightarrow> (Inl e, w1)
                | (Inr _, w1) \<Rightarrow>
                    (case sysfs (Direction p d) w1 of
                       (Inl e, w2) \<Rightarrow> (Inl e, w2)
                     | (Inr _, w2) \<Rightarrow>
                         (let w3 = w2\<lparr>exports := exports w2 @ [(ch, d)]\<rparr>
                          in if d = OUT \<and> initial \<noteq> None
                             then sysfs (Output p (the initial)) w3
                             else (Inr (), w3)))))"

text \<open>\<^verbatim>\<open>setup\<close> on one channel.\<close>

definition GPIO_setup1 ::
  "channel \<Rightarrow> direction \<Rightarrow> state option \<Rightarrow> nat option \<Rightarrow> world \<Rightarrow> unit result" where
  "GPIO_setup1 ch d initial pull_up_down w =
     (if mode w = None then (Inl NotInitialized, w)
      else setup_channel ch d initial
             (if pull_up_down \<noteq> None \<and> gpio_warnings w
              then warn PullUpDownUnsupported w else w))"

text \<open>The loop \<^verbatim>\<open>for ch in channel: setup(ch, direction, initial)\<close>.\<close>

fun setup_each :: "channel list \<Rightarrow> direction \<Rightarrow> state option \<Rightarrow> world \<Rightarrow> unit result" where
  "setup_each [] d initial w = (Inr (), w)"
| "setup_each (ch # chs) d initial w =
     (case GPIO_setup1 ch d initial None w of
        (Inl e, w') \<Rightarrow> (Inl e, w')
      | (Inr _, w') \<Rightarrow> setup_each chs d initial w')"

definition GPIO_setup ::
  "channels \<Rightarrow> direction \<Rightarrow> state option \<Rightarrow> nat option \<Rightarrow> world \<Rightarrow> unit result" where
  "GPIO_setup c d initial pull_up_down w =
     (case c of
        One ch \<Rightarrow> GPIO_setup1 ch d initial pull_up_down w
      | Many chs \<Rightarrow>
          (if mode w = None then (Inl NotInitialized, w)
           else setup_each chs d initial
                  (if pull_up_down \<noteq> None \<and> gpio_warnings w
                   then warn PullUpDownUnsupported w else w)))"

definition GPIO_input :: "channel \<Rightarrow> world \<Rightarrow> bool result" where
  "GPIO_input ch w =
     (case check_configured w ch None of
        Some e \<Rightarrow> (Inl e, w)
      | None \<Rightarrow>
          (case get_gpio_pin w (mode w) ch of
             Inl e \<Rightarrow> (Inl e, w)
           | Inr p \<Rightarrow>
               (case sysfs (Input p) w of
                  (Inl e, w1) \<Rightarrow> (Inl e, w1)
                | (Inr _, w1) \<Rightarrow> (Inr (p \<in> high w1), w1))))"

definition GPIO_output1 :: "channel \<Rightarrow> state \<Rightarrow> world \<Rightarrow> unit result" where
  "GPIO_output1 ch st w =
     (case check_configured w ch (Some OUT) of
        Some e \<Rightarrow> (Inl e, w)
      | None \<Rightarrow>
          (case get_gpio_pin w (mode w) ch of
             Inl e \<Rightarrow> (Inl e, w)
           | Inr p \<Rightarrow> sysfs (Output p st) w))"

text \<open>The loop \<^verbatim>\<open>for ch in channel: output(ch, state)\<close>.\<close>

fun output_each :: "channel list \<Rightarrow> state \<Rightarrow> world \<Rightarrow> unit result" where
  "output_each [] st w = (Inr (), w)"
| "output_each (ch # chs) st w =
     (case GPIO_output1 ch st w of
        (Inl e, w') \<Rightarrow> (Inl e, w')
      | (Inr _, w') \<Rightarrow> output_each chs st w')"

definition GPIO_output :: "channels \<Rightarrow> state \<Rightarrow> world \<Rightarrow> unit result" where
  "GPIO_output c st w =
     (case c of One ch \<Rightarrow> GPIO_output1 ch st w | Many chs \<Rightarrow> output_each chs st w)"

text \<open>\<^verbatim>\<open>__wrap(callback, channel)\<close>: a callback (a token here) closed over its channel.\<close>

definition wrap :: "nat option \<Rightarrow> channel \<Rightarrow> (nat \<times> channel) option" where
  "wrap callback ch = (case callback of None \<Rightarrow> None | Some cb \<Rightarrow> Some (cb, ch))"

definition add_event_detect ::
  "channel \<Rightarrow> trigger \<Rightarrow> nat option \<Rightarrow> nat option \<Rightarrow> world \<Rightarrow> unit result" where
  "add_event_detect ch trg callback bouncetime w =
     (case check_configured w ch (Some IN) of
        Some e \<Rightarrow> (Inl e, w)
      | None \<Rightarrow>
          (let w0 = (if bouncetime \<noteq> None \<and> gpio_warnings w
                     then warn BouncetimeUnsupported w else w)
           in case get_gpio_pin w0 (mode w0) ch of
                Inl e \<Rightarrow> (Inl e, w0)
              | Inr p \<Rightarrow> sysfs (Add_edge_detect p trg (wrap callback ch)) w0))"

definition add_event_callback ::
  "channel \<Rightarrow> nat option \<Rightarrow> nat option \<Rightarrow> world \<Rightarrow> unit result" where
  "add_event_callback ch callback bouncetime w =
     (case check_configured w ch (Some IN) of
        Some e \<Rightarrow> (Inl e, w)
      | None \<Rightarrow>
          (let w0 = (if bouncetime \<noteq> None \<and> gpio_warnings w
                     then warn BouncetimeUnsupported w else w)
           in case get_gpio_pin w0 (mode w0) ch of
                Inl e \<Rightarrow> (Inl e, w0)
              | Inr p \<Rightarrow> sysfs (Add_edge_callback p (wrap callback ch)) w0))"

text \<open>\<^verbatim>\<open>cleanup\<close> on one channel, on a list, and with no argument.\<close>

definition GPIO_cleanup1 :: "channel \<Rightarrow> world \<Rightarrow> unit result" where
  "GPIO_cleanup1 ch w =
     (case check_configured w ch None of
        Some e \<Rightarrow> (Inl e, w)
      | None \<Rightarrow>
          (case get_gpio_pin w (mode w) ch of
             Inl e \<Rightarrow> (Inl e, w)
           | Inr p \<Rightarrow>
               (case calls [Event_cleanup p, Unexport p] w of
                  (Inl e, w1) \<Rightarrow> (Inl e, w1)
                | (Inr _, w1) \<Rightarrow>
                    (Inr (), w1\<lparr>exports := filter (\<lambda>kv. fst kv \<noteq> ch) (exports w1)\<rparr>))))"

fun cleanup_each :: "channel list \<Rightarrow> world \<Rightarrow> unit result" where
  "cleanup_each [] w = (Inr (), w)"
| "cleanup_each (ch # chs) w =
     (case GPIO_cleanup1 ch w of
        (Inl e, w') \<Rightarrow> (Inl e, w')
      | (Inr _, w') \<Rightarrow> cleanup_each chs w')"

definition GPIO_cleanup :: "channels option \<Rightarrow> world \<Rightarrow> unit result" where
  "GPIO_cleanup c w =
     (case c of
        None \<Rightarrow>
          (case cleanup_each (map fst (exports w)) w of
             (Inl e, w1) \<Rightarrow> (Inl e, w1)
           | (Inr _, w1) \<Rightarrow> (Inr (), (setwarnings True w1)\<lparr>mode := None\<rparr>))
      | Some (Many chs) \<Rightarrow> cleanup_each chs w
      | Some (One ch) \<Rightarrow> GPIO_cleanup1 ch w)"

subsection \<open>GPIO.py: class PWM\<close>

text \<open>
  \<^verbatim>\<open>frequency\<close> and \<^verbatim>\<open>duty_cycle_percent\<close> are Python numbers, an \<^verbatim>\<open>int\<close> or a finite
  \<^verbatim>\<open>float\<close>: rationals.
\<close>

record PWM =
  chip :: int
  pin :: int
  frequency :: rat
  duty_cycle_percent :: rat
  invert_polarity :: bool




definition PWM_init :: "int \<Rightarrow> int \<Rightarrow> rat \<Rightarrow> rat \<Rightarrow> bool \<Rightarrow> world \<Rightarrow> PWM result" where
  "PWM_init c p f dcp invert w =
     (let self = \<lparr>chip = c, pin = p, frequency = f, duty_cycle_percent = dcp,
                 invert_polarity = invert\<rparr>
      in case calls [PWM_Export c p, PWM_Polarity c p invert, PWM_Enable c p,
                     PWM_Frequency c p f] w of
           (Inr _, w1) \<Rightarrow> (Inr self, w1)
         | (Inl (OSError e), w1) \<Rightarrow>
             (if e = 16 then
                (case calls [PWM_Unexport c p, PWM_Export c p] (warn (PinInUse p) w1) of
                   (Inl x, w2) \<Rightarrow> (Inl x, w2)
                 | (Inr _, w2) \<Rightarrow> (Inr self, w2))
              else (Inl (OSError e), w1))
         | (Inl x, w1) \<Rightarrow> (Inl x, w1))"


definition pwm_polarity :: "PWM \<Rightarrow> world \<Rightarrow> PWM result" where
  "pwm_polarity self w =
     (case calls [PWM_Disable (chip self) (pin self),
                  PWM_Polarity (chip self) (pin self) (\<not> invert_polarity self),
                  PWM_Enable (chip self) (pin self)] w of
        (Inl e, w1) \<Rightarrow> (Inl e, w1)
      | (Inr _, w1) \<Rightarrow> (Inr self, w1))"

subsection \<open>Reading the trace\<close>

text \<open>The events a call added to the log.\<close>

definition issued :: "world \<Rightarrow> 'a result \<Rightarrow> event list" where
  "issued w r = drop (length (trace w)) (trace (snd r))"

definition is_warning :: "event \<Rightarrow> bool" where
  "is_warning e = (case e of Warn _ \<Rightarrow> True | Call _ _ \<Rightarrow> False)"



fun occurs :: "(event \<Rightarrow> bool) \<Rightarrow> event list \<Rightarrow> bool" where
  "occurs P [] = False"
| "occurs P (e # es) = (if P e then True else occurs P es)"


text \<open>The polarity the chip is left with: the last polarity write that went through.\<close>

fun active_polarity :: "event list \<Rightarrow> bool option" where
  "active_polarity [] = None"
| "active_polarity (e # es) =
     (case active_polarity es of
        Some b \<Rightarrow> Some b
      | None \<Rightarrow> (case e of Call (PWM_Polarity _ _ b) None \<Rightarrow> Some b | _ \<Rightarrow> None))"

text \<open>The warnings in a log, in order.\<close>

fun warnings_of :: "event list \<Rightarrow> warning list" where
  "warnings_of [] = []"
| "warnings_of (Warn m # es) = m # warnings_of es"
| "warnings_of (Call c r # es) = warnings_of es"

text \<open>The world with its warnings erased: the toggle off, the log without its warnings.\<close>

definition quiet :: "world \<Rightarrow> world" where
  "quiet w = w\<lparr>gpio_warnings := False, trace := filter (\<lambda>e. \<not> is_warning e) (trace w)\<rparr>"

text \<open>A step from \<open>w\<close> that added no warning and left the toggle off.\<close>

definition silent :: "world \<Rightarrow> 'a result \<Rightarrow> bool" where
  "silent w r = (warnings_of (trace (snd r)) = warnings_of (trace w) \<and> \<not> gpio_warnings (snd r))"

text \<open>What tearing down one channel asks of the file layer, when its pin is known.\<close>

definition teardown_calls :: "world \<Rightarrow> channel \<Rightarrow> event list" where
  "teardown_calls w ch =
     (case get_gpio_pin w (mode w) ch of
        Inr p \<Rightarrow> [Call (Event_cleanup p) None, Call (Unexport p) None]
      | Inl _ \<Rightarrow> [])"

text \<open>A file layer in which none of the coming calls fails.\<close>

fun unfailing :: "nat option list \<Rightarrow> bool" where
  "unfailing [] = True"
| "unfailing (f # fs) = (f = None \<and> unfailing fs)"

text \<open>The module as first imported, over a file layer that never fails, all pins LOW.\<close>

definition initial :: world where
  "initial = \<lparr>gpio_warnings = True, mode = None, exports = [], custom_pin_map = [],
              faults = [], high = {}, trace = []\<rparr>"

definition pwm_1kHz :: PWM where
  "pwm_1kHz = \<lparr>chip = 0, pin = 0, frequency = 1000, duty_cycle_percent = 50,
               invert_polarity = False\<rparr>"

section \<open>Basic facts\<close>

lemma fault_at_tl [simp]: "fault_at (tl fs) i = fault_at fs (Suc i)"
  by (cases fs) (auto simp: fault_at_def)

lemma fault_at_Nil [simp]: "fault_at [] i = None"
  by (simp add: fault_at_def)

lemma fault_at_Cons [simp]: "fault_at (f # fs) 0 = f" "fault_at (f # fs) (Suc i) = fault_at fs i"
  by (simp_all add: fault_at_def)

lemma sysfs_ok:
  "fault_at (faults w) 0 = None \<Longrightarrow>
   sysfs c w = (Inr (), w\<lparr>faults := tl (faults w), trace := trace w @ [Call c None]\<rparr>)"
  by (simp add: sysfs_def)

lemma sysfs_fail:
  "fault_at (faults w) 0 = Some e \<Longrightarrow>
   sysfs c w = (Inl (OSError e), w\<lparr>faults := tl (faults w), trace := trace w @ [Call c (Some e)]\<rparr>)"
  by (simp add: sysfs_def)

lemma sysfs_frame:
  "mode (snd (sysfs c w)) = mode w"
  "exports (snd (sysfs c w)) = exports w"
  "custom_pin_map (snd (sysfs c w)) = custom_pin_map w"
  "gpio_warnings (snd (sysfs c w)) = gpio_warnings w"
  "high (snd (sysfs c w)) = high w"
  by (simp_all add: sysfs_def Let_def split: option.splits)

lemma calls_frame:
  "mode (snd (calls cs w)) = mode w \<and> exports (snd (calls cs w)) = exports w
   \<and> custom_pin_map (snd (calls cs w)) = custom_pin_map w
   \<and> gpio_warnings (snd (calls cs w)) = gpio_warnings w
   \<and> high (snd (calls cs w)) = high w"
proof (induction cs arbitrary: w)
  case Nil
  show ?case by simp
next
  case (Cons c cs)
  obtain r w' where s: "sysfs c w = (r, w')" by (cases "sysfs c w")
  have fr: "mode w' = mode w" "exports w' = exports w" "custom_pin_map w' = custom_pin_map w"
    "gpio_warnings w' = gpio_warnings w" "high w' = high w"
    using sysfs_frame [of c w] s by simp_all
  show ?case
  proof (cases r)
    case (Inl e)
    with s fr show ?thesis by simp
  next
    case (Inr u)
    with s fr Cons.IH [of w'] show ?thesis by simp
  qed
qed

lemma warn_frame:
  "mode (warn m w) = mode w" "exports (warn m w) = exports w"
  "custom_pin_map (warn m w) = custom_pin_map w" "gpio_warnings (warn m w) = gpio_warnings w"
  "high (warn m w) = high w" "faults (warn m w) = faults w"
  by (simp_all add: warn_def)

lemma export_or_retry_frame:
  "mode (snd (export_or_retry ch p w)) = mode w \<and> exports (snd (export_or_retry ch p w)) = exports w
   \<and> custom_pin_map (snd (export_or_retry ch p w)) = custom_pin_map w
   \<and> gpio_warnings (snd (export_or_retry ch p w)) = gpio_warnings w"
proof -
  obtain r w1 where s: "sysfs (Export p) w = (r, w1)" by (cases "sysfs (Export p) w")
  have fr: "mode w1 = mode w" "exports w1 = exports w" "custom_pin_map w1 = custom_pin_map w"
    "gpio_warnings w1 = gpio_warnings w"
    using sysfs_frame [of "Export p" w] s by simp_all
  show ?thesis
    unfolding export_or_retry_def s
    using fr calls_frame [of "[Unexport p, Export p]" w1]
      calls_frame [of "[Unexport p, Export p]" "warn (ChannelInUse ch) w1"]
    by (auto simp: warn_frame split: sum.splits error.splits simp del: calls.simps)
qed

lemma get_gpio_pin_cong:
  "custom_pin_map w' = custom_pin_map w \<Longrightarrow> get_gpio_pin w' m ch = get_gpio_pin w m ch"
  by (simp add: get_gpio_pin_def pin_map_def)

lemma setup_channel_fail_exports:
  assumes "fst (setup_channel ch d ini w) = Inl e" and "ini = None \<or> d = IN"
  shows "exports (snd (setup_channel ch d ini w)) = exports w"
proof (cases "ch \<in> fst ` set (exports w)")
  case True
  then show ?thesis by (simp add: setup_channel_def)
next
  case nin: False
  show ?thesis
  proof (cases "get_gpio_pin w (mode w) ch")
    case (Inl x)
    with nin show ?thesis by (simp add: setup_channel_def)
  next
    case (Inr p)
    obtain r1 w1 where e1: "export_or_retry ch p w = (r1, w1)"
      by (cases "export_or_retry ch p w")
    have w1: "exports w1 = exports w"
      using export_or_retry_frame [of ch p w] e1 by simp
    obtain r2 w2 where e2: "sysfs (Direction p d) w1 = (r2, w2)"
      by (cases "sysfs (Direction p d) w1")
    have w2: "exports w2 = exports w"
      using sysfs_frame(2) [of "Direction p d" w1] e2 w1 by simp
    from assms nin Inr e1 e2 w1 w2 show ?thesis
      by (cases r1; cases r2) (auto simp: setup_channel_def Let_def)
  qed
qed

lemma setup1_fail_exports:
  assumes "fst (GPIO_setup1 ch d ini pud w) = Inl e" and "ini = None \<or> d = IN"
  shows "exports (snd (GPIO_setup1 ch d ini pud w)) = exports w"
proof (cases "mode w = None")
  case True
  then show ?thesis by (simp add: GPIO_setup1_def)
next
  case False
  define w0 where "w0 = (if pud \<noteq> None \<and> gpio_warnings w then warn PullUpDownUnsupported w else w)"
  have w0: "exports w0 = exports w" by (simp add: w0_def warn_frame)
  have eq: "GPIO_setup1 ch d ini pud w = setup_channel ch d ini w0"
    using False unfolding GPIO_setup1_def w0_def by auto
  show ?thesis
    using assms setup_channel_fail_exports [of ch d ini w0 e] w0 unfolding eq by simp
qed

lemma unfailing_fault_at: "unfailing fs \<Longrightarrow> fault_at fs i = None"
proof (induction fs arbitrary: i)
  case Nil
  show ?case by simp
next
  case (Cons f fs)
  then show ?case by (cases i) simp_all
qed

lemma setup_channel_ok:
  assumes "setup_channel ch d ini w = (Inr (), w')"
  shows "exports w' = exports w @ [(ch, d)] \<and> mode w' = mode w
         \<and> custom_pin_map w' = custom_pin_map w \<and> gpio_warnings w' = gpio_warnings w
         \<and> (\<exists>p. get_gpio_pin w (mode w) ch = Inr p) \<and> ch \<notin> fst ` set (exports w)"
proof -
  from assms have nin: "ch \<notin> fst ` set (exports w)"
    by (auto simp: setup_channel_def split: if_splits)
  from assms nin obtain p where p: "get_gpio_pin w (mode w) ch = Inr p"
    by (cases "get_gpio_pin w (mode w) ch") (auto simp: setup_channel_def)
  obtain r1 w1 where e1: "export_or_retry ch p w = (r1, w1)"
    by (cases "export_or_retry ch p w")
  have w1: "exports w1 = exports w" "mode w1 = mode w" "custom_pin_map w1 = custom_pin_map w"
    "gpio_warnings w1 = gpio_warnings w"
    using export_or_retry_frame [of ch p w] e1 by simp_all
  obtain r2 w2 where e2: "sysfs (Direction p d) w1 = (r2, w2)"
    by (cases "sysfs (Direction p d) w1")
  have w2: "exports w2 = exports w" "mode w2 = mode w" "custom_pin_map w2 = custom_pin_map w"
    "gpio_warnings w2 = gpio_warnings w"
    using sysfs_frame [of "Direction p d" w1] e2 w1 by simp_all
  define w3 where "w3 = w2\<lparr>exports := exports w2 @ [(ch, d)]\<rparr>"
  have w3: "exports w3 = exports w @ [(ch, d)]" "mode w3 = mode w"
    "custom_pin_map w3 = custom_pin_map w" "gpio_warnings w3 = gpio_warnings w"
    using w2 by (simp_all add: w3_def)
  have fin: "w' = w3 \<or> w' = snd (sysfs (Output p (the ini)) w3)"
    using assms nin p e1 e2
    by (cases r1; cases r2) (auto simp: setup_channel_def Let_def w3_def split: if_splits)
  from fin w3 sysfs_frame [of "Output p (the ini)" w3] nin p show ?thesis by auto
qed

lemma setup_channel_succeeds:
  assumes "ch \<notin> fst ` set (exports w)" and "get_gpio_pin w (mode w) ch = Inr p"
    and "fault_at (faults w) 0 = None" and "fault_at (faults w) (Suc 0) = None" and "fault_at (faults w) (Suc (Suc 0)) = None"
  shows "fst (setup_channel ch d ini w) = Inr ()"
  using assms
  by (simp add: setup_channel_def export_or_retry_def sysfs_def Let_def)

lemma cleanup1_ok:
  assumes "GPIO_cleanup1 ch w = (Inr (), w')"
  shows "exports w' = filter (\<lambda>kv. fst kv \<noteq> ch) (exports w) \<and> mode w' = mode w
         \<and> custom_pin_map w' = custom_pin_map w \<and> gpio_warnings w' = gpio_warnings w"
proof -
  from assms obtain p where p: "get_gpio_pin w (mode w) ch = Inr p"
    and c: "check_configured w ch None = None"
    by (cases "get_gpio_pin w (mode w) ch"; cases "check_configured w ch None")
       (auto simp: GPIO_cleanup1_def)
  obtain r1 w1 where e1: "calls [Event_cleanup p, Unexport p] w = (r1, w1)"
    by (cases "calls [Event_cleanup p, Unexport p] w")
  have w1: "exports w1 = exports w" "mode w1 = mode w" "custom_pin_map w1 = custom_pin_map w"
    "gpio_warnings w1 = gpio_warnings w"
    using calls_frame [of "[Event_cleanup p, Unexport p]" w] e1 by simp_all
  from assms p c e1 have "w' = w1\<lparr>exports := filter (\<lambda>kv. fst kv \<noteq> ch) (exports w1)\<rparr>"
    by (cases r1) (auto simp: GPIO_cleanup1_def simp del: calls.simps)
  with w1 show ?thesis by simp
qed

lemma sysfs_error: "fst (sysfs c w) = Inl x \<Longrightarrow> \<exists>e. x = OSError e"
  by (auto simp: sysfs_def Let_def split: option.splits)

lemma calls_error: "fst (calls cs w) = Inl x \<Longrightarrow> \<exists>e. x = OSError e"
proof (induction cs arbitrary: w)
  case Nil
  then show ?case by simp
next
  case (Cons c cs)
  obtain r w1 where s: "sysfs c w = (r, w1)" by (cases "sysfs c w")
  show ?case
  proof (cases r)
    case (Inl e)
    with s Cons.prems sysfs_error [of c w x] show ?thesis by simp
  next
    case (Inr u)
    with s Cons.prems Cons.IH [of w1] show ?thesis by simp
  qed
qed

lemma export_or_retry_error:
  assumes "fst (export_or_retry ch p w) = Inl x"
  shows "\<exists>e. x = OSError e"
proof -
  obtain r w1 where s: "sysfs (Export p) w = (r, w1)" by (cases "sysfs (Export p) w")
  show ?thesis
  proof (cases r)
    case (Inr u)
    with s assms show ?thesis by (simp add: export_or_retry_def)
  next
    case (Inl y)
    with s sysfs_error [of "Export p" w y] obtain e where y: "y = OSError e" by auto
    show ?thesis
    proof (cases "e = 16")
      case False
      with s Inl y assms show ?thesis by (auto simp: export_or_retry_def)
    next
      case True
      with s Inl y assms
        calls_error [of "[Unexport p, Export p]" w1 x]
        calls_error [of "[Unexport p, Export p]" "warn (ChannelInUse ch) w1" x]
      show ?thesis
        by (auto simp: export_or_retry_def split: if_splits simp del: calls.simps)
    qed
  qed
qed

lemma setup_channel_not_already:
  assumes "ch \<notin> fst ` set (exports w)"
  shows "fst (setup_channel ch d ini w) \<noteq> Inl (AlreadyConfigured c)"
proof (cases "get_gpio_pin w (mode w) ch")
  case (Inl x)
  then have "x \<noteq> AlreadyConfigured c"
    by (auto simp: get_gpio_pin_def split: if_splits option.splits)
  with assms Inl show ?thesis by (simp add: setup_channel_def)
next
  case (Inr p)
  obtain r1 w1 where e1: "export_or_retry ch p w = (r1, w1)"
    by (cases "export_or_retry ch p w")
  obtain r2 w2 where e2: "sysfs (Direction p d) w1 = (r2, w2)"
    by (cases "sysfs (Direction p d) w1")
  have a1: "r1 \<noteq> Inl (AlreadyConfigured c)"
    using export_or_retry_error [of ch p w "AlreadyConfigured c"] e1 by auto
  have a2: "r2 \<noteq> Inl (AlreadyConfigured c)"
    using sysfs_error [of "Direction p d" w1 "AlreadyConfigured c"] e2 by auto
  have a3: "fst (sysfs (Output p (the ini)) w') \<noteq> Inl (AlreadyConfigured c)" for w'
    using sysfs_error [of "Output p (the ini)" w' "AlreadyConfigured c"] by auto
  from assms Inr e1 e2 a1 a2 a3 show ?thesis
    by (cases r1; cases r2) (auto simp: setup_channel_def Let_def)
qed

lemma cleanup1_succeeds:
  assumes "ch \<in> fst ` set (exports w)" and "get_gpio_pin w (mode w) ch = Inr p"
    and "fault_at (faults w) 0 = None \<and> fault_at (faults w) 1 = None"
  shows "fst (GPIO_cleanup1 ch w) = Inr ()"
proof -
  from assms(1) have c: "check_configured w ch None = None"
    by (auto simp: check_configured_def map_of_eq_None_iff split: option.splits)
  from assms(2,3) c show ?thesis
    by (simp add: GPIO_cleanup1_def sysfs_def Let_def eval_nat_numeral)
qed

lemma unfailing_tl: "unfailing fs \<Longrightarrow> unfailing (tl fs)"
  by (cases fs) simp_all

lemma cleanup1_result:
  assumes "GPIO_cleanup1 ch w = (Inr (), w')"
  shows "\<exists>p. get_gpio_pin w (mode w) ch = Inr p
           \<and> w' = w\<lparr>faults := tl (tl (faults w)),
                     trace := trace w @ [Call (Event_cleanup p) None, Call (Unexport p) None],
                     exports := filter (\<lambda>kv. fst kv \<noteq> ch) (exports w)\<rparr>"
proof -
  from assms obtain p where p: "get_gpio_pin w (mode w) ch = Inr p"
    and c: "check_configured w ch None = None"
    by (cases "get_gpio_pin w (mode w) ch"; cases "check_configured w ch None")
       (auto simp: GPIO_cleanup1_def)
  from assms p c have
    "w' = w\<lparr>faults := tl (tl (faults w)),
            trace := trace w @ [Call (Event_cleanup p) None, Call (Unexport p) None],
            exports := filter (\<lambda>kv. fst kv \<noteq> ch) (exports w)\<rparr>"
    by (auto simp: GPIO_cleanup1_def sysfs_def Let_def split: option.splits)
  with p show ?thesis by blast
qed

lemma teardown_calls_cong:
  "mode w' = mode w \<Longrightarrow> custom_pin_map w' = custom_pin_map w \<Longrightarrow>
   teardown_calls w' = teardown_calls w"
  by (rule ext) (simp add: teardown_calls_def get_gpio_pin_def pin_map_def)

lemma cleanup_each_result:
  "cleanup_each chs w = (Inr (), w') \<Longrightarrow>
   exports w' = filter (\<lambda>kv. fst kv \<notin> set chs) (exports w) \<and> mode w' = mode w
   \<and> custom_pin_map w' = custom_pin_map w \<and> gpio_warnings w' = gpio_warnings w
   \<and> trace w' = trace w @ concat (map (teardown_calls w) chs)
   \<and> (\<forall>ch\<in>set chs. \<exists>p. get_gpio_pin w (mode w) ch = Inr p)"
proof (induction chs arbitrary: w)
  case Nil
  then show ?case by simp
next
  case (Cons ch chs)
  obtain r1 w1 where e1: "GPIO_cleanup1 ch w = (r1, w1)" by (cases "GPIO_cleanup1 ch w")
  with Cons.prems have r1: "r1 = Inr ()" and rest: "cleanup_each chs w1 = (Inr (), w')"
    by (cases r1; simp)+
  from cleanup1_result [of ch w w1] e1 r1 obtain p where
    p: "get_gpio_pin w (mode w) ch = Inr p"
    and w1: "w1 = w\<lparr>faults := tl (tl (faults w)),
                     trace := trace w @ [Call (Event_cleanup p) None, Call (Unexport p) None],
                     exports := filter (\<lambda>kv. fst kv \<noteq> ch) (exports w)\<rparr>"
    by auto
  have tc: "teardown_calls w1 = teardown_calls w"
    by (rule teardown_calls_cong) (simp_all add: w1)
  have t1: "teardown_calls w ch = [Call (Event_cleanup p) None, Call (Unexport p) None]"
    using p by (simp add: teardown_calls_def)
  have g: "get_gpio_pin w1 (mode w1) = get_gpio_pin w (mode w)"
    by (rule ext) (simp add: w1 get_gpio_pin_def pin_map_def)
  from Cons.IH [OF rest] tc t1 p g show ?case
    by (simp add: w1 conj_commute)
qed

lemma cleanup_each_succeeds:
  "distinct chs \<Longrightarrow> set chs \<subseteq> fst ` set (exports w) \<Longrightarrow>
   (\<forall>ch\<in>set chs. \<exists>p. get_gpio_pin w (mode w) ch = Inr p) \<Longrightarrow> unfailing (faults w) \<Longrightarrow>
   fst (cleanup_each chs w) = Inr ()"
proof (induction chs arbitrary: w)
  case Nil
  show ?case by simp
next
  case (Cons ch chs)
  from Cons.prems obtain p where p: "get_gpio_pin w (mode w) ch = Inr p" by auto
  from Cons.prems have "ch \<in> fst ` set (exports w)" by simp
  then have c: "check_configured w ch None = None"
    by (auto simp: check_configured_def map_of_eq_None_iff split: option.splits)
  have f: "fault_at (faults w) i = None" for i
    using Cons.prems(4) by (rule unfailing_fault_at)
  define w1 where "w1 = w\<lparr>faults := tl (tl (faults w)),
                     trace := trace w @ [Call (Event_cleanup p) None, Call (Unexport p) None],
                     exports := filter (\<lambda>kv. fst kv \<noteq> ch) (exports w)\<rparr>"
  have e1: "GPIO_cleanup1 ch w = (Inr (), w1)"
    using p c f by (simp add: GPIO_cleanup1_def sysfs_def Let_def w1_def)
  have g: "get_gpio_pin w1 (mode w1) = get_gpio_pin w (mode w)"
    by (rule ext) (simp add: w1_def get_gpio_pin_def pin_map_def)
  have "fst (cleanup_each chs w1) = Inr ()"
  proof (rule Cons.IH)
    show "distinct chs" using Cons.prems by simp
    show "set chs \<subseteq> fst ` set (exports w1)"
      using Cons.prems(1,2) by (force simp: w1_def)
    show "\<forall>c\<in>set chs. \<exists>p. get_gpio_pin w1 (mode w1) c = Inr p"
      using Cons.prems(3) g by simp
    show "unfailing (faults w1)"
      using Cons.prems(4) by (simp add: w1_def unfailing_tl)
  qed
  with e1 show ?case by simp
qed

subsection \<open>Rounding\<close>




subsection \<open>Warnings\<close>

lemma warnings_of_append [simp]: "warnings_of (xs @ ys) = warnings_of xs @ warnings_of ys"
  by (induction xs rule: warnings_of.induct) simp_all

lemma sysfs_silent: "\<not> gpio_warnings w \<Longrightarrow> silent w (sysfs c w)"
  by (simp add: silent_def sysfs_def Let_def split: option.splits)

lemma silent_trans:
  "silent w (r1, w1) \<Longrightarrow> silent w1 r \<Longrightarrow> silent w r"
  by (simp add: silent_def)

lemma silent_refl: "\<not> gpio_warnings w \<Longrightarrow> silent w (r, w)"
  by (simp add: silent_def)

lemma silent_off: "silent w (r, w1) \<Longrightarrow> \<not> gpio_warnings w1"
  by (simp add: silent_def)

lemma calls_silent: "\<not> gpio_warnings w \<Longrightarrow> silent w (calls cs w)"
proof (induction cs arbitrary: w)
  case Nil
  then show ?case by (simp add: silent_def)
next
  case (Cons c cs)
  obtain r w1 where s: "sysfs c w = (r, w1)" by (cases "sysfs c w")
  have s1: "silent w (r, w1)" using sysfs_silent [OF Cons.prems, of c] s by simp
  show ?case
  proof (cases r)
    case (Inl e)
    with s s1 show ?thesis by (simp add: silent_def)
  next
    case (Inr u)
    have "silent w1 (calls cs w1)" using s1 by (intro Cons.IH) (simp add: silent_def)
    with s s1 Inr show ?thesis by (simp add: silent_def)
  qed
qed

lemma export_or_retry_silent:
  assumes "\<not> gpio_warnings w"
  shows "silent w (export_or_retry ch p w)"
proof -
  obtain r w1 where s: "sysfs (Export p) w = (r, w1)" by (cases "sysfs (Export p) w")
  have s1: "silent w (r, w1)" using sysfs_silent [OF assms, of "Export p"] s by simp
  then have off: "\<not> gpio_warnings w1" by (rule silent_off)
  have c: "silent w1 (calls [Unexport p, Export p] w1)" using off by (rule calls_silent)
  have c': "silent w (calls [Unexport p, Export p] w1)" by (rule silent_trans [OF s1 c])
  show ?thesis
    unfolding export_or_retry_def s using s1 c' off
    by (auto split: sum.splits error.splits simp del: calls.simps)
qed

lemma setup_channel_silent:
  assumes "\<not> gpio_warnings w"
  shows "silent w (setup_channel ch d ini w)"
proof (cases "ch \<in> fst ` set (exports w)")
  case True
  with assms show ?thesis by (simp add: setup_channel_def silent_def)
next
  case nin: False
  show ?thesis
  proof (cases "get_gpio_pin w (mode w) ch")
    case (Inl x)
    with nin assms show ?thesis by (simp add: setup_channel_def silent_def)
  next
    case (Inr p)
    obtain r1 w1 where e1: "export_or_retry ch p w = (r1, w1)"
      by (cases "export_or_retry ch p w")
    have s1: "silent w (r1, w1)" using export_or_retry_silent [OF assms, of ch p] e1 by simp
    obtain r2 w2 where e2: "sysfs (Direction p d) w1 = (r2, w2)"
      by (cases "sysfs (Direction p d) w1")
    have s2: "silent w1 (r2, w2)"
      using sysfs_silent [OF silent_off [OF s1], of "Direction p d"] e2 by simp
    define w3 where "w3 = w2\<lparr>exports := exports w2 @ [(ch, d)]\<rparr>"
    have s3: "silent w (Inr (), w3)"
      using s1 s2 by (simp add: silent_def w3_def)
    have s4: "silent w (sysfs (Output p (the ini)) w3)"
      using silent_trans [OF s3 sysfs_silent [OF silent_off [OF s3]]] .
    from nin Inr e1 e2 s1 s2 s3 s4 show ?thesis
      by (cases r1; cases r2) (auto simp: setup_channel_def Let_def w3_def silent_def)
  qed
qed

lemma setup1_silent:
  assumes "\<not> gpio_warnings w"
  shows "silent w (GPIO_setup1 ch d ini pud w)"
  using assms setup_channel_silent [OF assms, of ch d ini]
  by (simp add: GPIO_setup1_def silent_def)

lemma setup_each_silent: "\<not> gpio_warnings w \<Longrightarrow> silent w (setup_each chs d ini w)"
proof (induction chs arbitrary: w)
  case Nil
  then show ?case by (simp add: silent_def)
next
  case (Cons ch chs)
  obtain r w1 where s: "GPIO_setup1 ch d ini None w = (r, w1)"
    by (cases "GPIO_setup1 ch d ini None w")
  have s1: "silent w (r, w1)" using setup1_silent [OF Cons.prems, of ch d ini None] s by simp
  show ?case
  proof (cases r)
    case (Inl e)
    with s s1 show ?thesis by simp
  next
    case (Inr u)
    have "silent w1 (setup_each chs d ini w1)" by (rule Cons.IH [OF silent_off [OF s1]])
    with s Inr silent_trans [OF s1] show ?thesis by simp
  qed
qed

lemma setup_silent: "\<not> gpio_warnings w \<Longrightarrow> silent w (GPIO_setup c d ini pud w)"
  by (cases c) (simp_all add: GPIO_setup_def setup1_silent setup_each_silent silent_refl)

lemma add_event_detect_silent:
  "\<not> gpio_warnings w \<Longrightarrow> silent w (add_event_detect ch trg cb bt w)"
  by (auto simp: add_event_detect_def Let_def silent_refl sysfs_silent
      split: option.splits sum.splits)

lemma add_event_callback_silent:
  "\<not> gpio_warnings w \<Longrightarrow> silent w (add_event_callback ch cb bt w)"
  by (auto simp: add_event_callback_def Let_def silent_refl sysfs_silent
      split: option.splits sum.splits)

lemma quiet_fields [simp]:
  "mode (quiet w) = mode w" "exports (quiet w) = exports w"
  "custom_pin_map (quiet w) = custom_pin_map w" "faults (quiet w) = faults w"
  "high (quiet w) = high w" "gpio_warnings (quiet w) = False"
  "trace (quiet w) = filter (\<lambda>e. \<not> is_warning e) (trace w)"
  by (simp_all add: quiet_def)

lemma quiet_warn [simp]: "quiet (warn m w) = quiet w"
  by (simp add: quiet_def warn_def is_warning_def)

lemma quiet_exports_update:
  "(quiet w)\<lparr>exports := x\<rparr> = quiet (w\<lparr>exports := x\<rparr>)"
  by (simp add: quiet_def)

lemma get_gpio_pin_quiet [simp]: "get_gpio_pin (quiet w) m ch = get_gpio_pin w m ch"
  by (simp add: get_gpio_pin_def pin_map_def)

lemma check_configured_quiet [simp]: "check_configured (quiet w) ch d = check_configured w ch d"
  by (simp add: check_configured_def)

lemma sysfs_quiet: "sysfs c (quiet w) = (fst (sysfs c w), quiet (snd (sysfs c w)))"
  by (simp add: sysfs_def Let_def quiet_def is_warning_def split: option.splits)

lemma calls_quiet: "calls cs (quiet w) = (fst (calls cs w), quiet (snd (calls cs w)))"
proof (induction cs arbitrary: w)
  case Nil
  show ?case by simp
next
  case (Cons c cs)
  obtain r w1 where s: "sysfs c w = (r, w1)" by (cases "sysfs c w")
  show ?case
    using Cons.IH [of w1] s by (cases r) (simp_all add: sysfs_quiet)
qed

lemma export_or_retry_quiet:
  "export_or_retry ch p (quiet w)
     = (fst (export_or_retry ch p w), quiet (snd (export_or_retry ch p w)))"
proof -
  obtain r w1 where s: "sysfs (Export p) w = (r, w1)" by (cases "sysfs (Export p) w")
  have c: "calls [Unexport p, Export p] (quiet w1)
             = (fst (calls [Unexport p, Export p] w1), quiet (snd (calls [Unexport p, Export p] w1)))"
    by (rule calls_quiet)
  have c': "calls [Unexport p, Export p] (quiet w1)
             = (fst (calls [Unexport p, Export p] (warn (ChannelInUse ch) w1)),
                quiet (snd (calls [Unexport p, Export p] (warn (ChannelInUse ch) w1))))"
    using calls_quiet [of "[Unexport p, Export p]" "warn (ChannelInUse ch) w1"] by simp
  show ?thesis
    unfolding export_or_retry_def sysfs_quiet s using c c'
    by (auto split: sum.splits error.splits simp del: calls.simps)
qed

lemma setup_channel_quiet:
  "setup_channel ch d ini (quiet w)
     = (fst (setup_channel ch d ini w), quiet (snd (setup_channel ch d ini w)))"
proof (cases "ch \<in> fst ` set (exports w)")
  case True
  then show ?thesis by (simp add: setup_channel_def)
next
  case nin: False
  show ?thesis
  proof (cases "get_gpio_pin w (mode w) ch")
    case (Inl x)
    with nin show ?thesis by (simp add: setup_channel_def)
  next
    case (Inr p)
    obtain r1 w1 where e1: "export_or_retry ch p w = (r1, w1)"
      by (cases "export_or_retry ch p w")
    obtain r2 w2 where e2: "sysfs (Direction p d) w1 = (r2, w2)"
      by (cases "sysfs (Direction p d) w1")
    from nin Inr e1 e2 show ?thesis
      by (cases r1; cases r2)
         (auto simp: setup_channel_def Let_def export_or_retry_quiet sysfs_quiet
            quiet_exports_update)
  qed
qed

lemma setup_channel_warn:
  "fst (setup_channel ch d ini (warn m w)) = fst (setup_channel ch d ini w)
   \<and> quiet (snd (setup_channel ch d ini (warn m w))) = quiet (snd (setup_channel ch d ini w))"
  using setup_channel_quiet [of ch d ini "warn m w"] setup_channel_quiet [of ch d ini w]
  by simp

lemma setup1_quiet:
  "GPIO_setup1 ch d ini pud' (quiet w)
     = (fst (GPIO_setup1 ch d ini pud w), quiet (snd (GPIO_setup1 ch d ini pud w)))"
  by (auto simp: GPIO_setup1_def setup_channel_quiet setup_channel_warn)

lemma setup_each_quiet:
  "setup_each chs d ini (quiet w)
     = (fst (setup_each chs d ini w), quiet (snd (setup_each chs d ini w)))"
proof (induction chs arbitrary: w)
  case Nil
  show ?case by simp
next
  case (Cons ch chs)
  obtain r w1 where s: "GPIO_setup1 ch d ini None w = (r, w1)"
    by (cases "GPIO_setup1 ch d ini None w")
  show ?case
    using Cons.IH [of w1] s setup1_quiet [of ch d ini None w None] by (cases r) simp_all
qed

lemma setup_quiet:
  "GPIO_setup c d ini pud' (quiet w)
     = (fst (GPIO_setup c d ini pud w), quiet (snd (GPIO_setup c d ini pud w)))"
proof (cases c)
  case (One ch)
  then show ?thesis by (simp add: GPIO_setup_def setup1_quiet [of ch d ini pud' w pud])
next
  case (Many chs)
  have "setup_each chs d ini (quiet w)
          = (fst (setup_each chs d ini (warn PullUpDownUnsupported w)),
             quiet (snd (setup_each chs d ini (warn PullUpDownUnsupported w))))"
    using setup_each_quiet [of chs d ini "warn PullUpDownUnsupported w"] by simp
  with Many show ?thesis by (simp add: GPIO_setup_def setup_each_quiet)
qed

lemma sysfs_warn:
  "fst (sysfs c (warn m w)) = fst (sysfs c w)
   \<and> quiet (snd (sysfs c (warn m w))) = quiet (snd (sysfs c w))"
  using sysfs_quiet [of c "warn m w"] sysfs_quiet [of c w] by simp

lemma get_gpio_pin_warn [simp]: "get_gpio_pin (warn m w) x ch = get_gpio_pin w x ch"
  by (simp add: get_gpio_pin_def pin_map_def warn_def)

lemma add_event_detect_quiet:
  "add_event_detect ch trg cb bt' (quiet w)
     = (fst (add_event_detect ch trg cb bt w), quiet (snd (add_event_detect ch trg cb bt w)))"
  by (auto simp: add_event_detect_def Let_def sysfs_quiet sysfs_warn warn_frame
      split: option.splits sum.splits)

lemma add_event_callback_quiet:
  "add_event_callback ch cb bt' (quiet w)
     = (fst (add_event_callback ch cb bt w), quiet (snd (add_event_callback ch cb bt w)))"
  by (auto simp: add_event_callback_def Let_def sysfs_quiet sysfs_warn warn_frame
      split: option.splits sum.splits)

lemma PWM_init_busy:
  assumes "fault_at (faults w) 0 = Some 16"
  shows "issued w (PWM_init c p f dcp invert w)
     = [Call (PWM_Export c p) (Some 16), Warn (PinInUse p),
        Call (PWM_Unexport c p) (fault_at (faults w) 1)]
       @ (if fault_at (faults w) 1 = None then [Call (PWM_Export c p) (fault_at (faults w) 2)]
          else [])"
  using assms
  by (auto simp: PWM_init_def issued_def sysfs_def Let_def warn_def eval_nat_numeral
      split: option.splits)


section \<open>PWM: order of the period and duty-cycle writes\<close>




section \<open>Numbering schemes\<close>

text \<open>
  C2. After a scheme other than BOARD is selected, here the custom mapping that sends
  channel 7 to kernel pin 54, translating channel 7 should give pin 54. In the code
  \<^verbatim>\<open>setmode\<close> accepts the mapping and stores it, and \<^verbatim>\<open>get_gpio_pin\<close> then fails its
  assertion \<^verbatim>\<open>mode in [BOARD]\<close>: the translation raises, and so does \<^verbatim>\<open>setup\<close>, before
  any file operation.
\<close>

theorem custom_mapping_is_rejected:
  "setmode (Mapping [(7, 54)]) initial
     = (Inr (), initial\<lparr>mode := Some CUSTOM, custom_pin_map := [(7, 54)]\<rparr>)
   \<and> get_gpio_pin (snd (setmode (Mapping [(7, 54)]) initial))
        (mode (snd (setmode (Mapping [(7, 54)]) initial))) 7 = Inl AssertionError
   \<and> GPIO_setup (One 7) IN None None (snd (setmode (Mapping [(7, 54)]) initial))
        = (Inl AssertionError, snd (setmode (Mapping [(7, 54)]) initial))"
  by code_simp

section \<open>Writing to a list of channels\<close>

text \<open>
  C3. \<^verbatim>\<open>output([11, 12], (HIGH, LOW))\<close> should set channel 11 HIGH and channel 12 LOW. The
  loop hands the whole tuple to every channel: pin 138 (channel 11) and pin 29
  (channel 12) are both written with \<^verbatim>\<open>(HIGH, LOW)\<close>, never with their own element.
\<close>

theorem output_list_passes_whole_tuple:
  "issued (snd (GPIO_setup (Many [11, 12]) OUT None None (snd (setmode (Scheme BOARD) initial))))
     (GPIO_output (Many [11, 12]) (Levels [True, False])
        (snd (GPIO_setup (Many [11, 12]) OUT None None (snd (setmode (Scheme BOARD) initial)))))
   = [Call (Output 138 (Levels [True, False])) None,
      Call (Output 29 (Levels [True, False])) None]"
  by code_simp

section \<open>Configuring twice, and again after teardown\<close>

text \<open>
  C4. With a numbering scheme active: once \<^verbatim>\<open>setup(C, dir)\<close> has succeeded, a second
  \<^verbatim>\<open>setup(C, dir)\<close> fails with "already configured", whatever the file layer does.
  \<^verbatim>\<open>cleanup(C)\<close> then succeeds when its two file operations go through. Once it has
  succeeded, the next \<^verbatim>\<open>setup(C, dir)\<close> does not fail with "already configured", and on
  a file layer whose calls go through it succeeds and records the channel with its
  direction.
\<close>

theorem configure_twice_then_teardown:
  assumes s1: "GPIO_setup (One ch) d ini pud w = (Inr (), w1)"
    and s2: "GPIO_setup (One ch) d ini pud w1 = (r2, w2)"
    and s3: "GPIO_cleanup (Some (One ch)) w2 = (r3, w3)"
    and s4: "GPIO_setup (One ch) d ini pud w3 = (r4, w4)"
  shows "r2 = Inl (AlreadyConfigured ch)
         \<and> (fault_at (faults w2) 0 = None \<and> fault_at (faults w2) 1 = None \<longrightarrow> r3 = Inr ())
         \<and> (r3 = Inr () \<longrightarrow> r4 \<noteq> Inl (AlreadyConfigured ch))
         \<and> (r3 = Inr () \<and> unfailing (faults w3) \<longrightarrow>
              r4 = Inr () \<and> map_of (exports w4) ch = Some d)"
proof -
  define w0 where "w0 = (if pud \<noteq> None \<and> gpio_warnings w then warn PullUpDownUnsupported w else w)"
  from s1 have m: "mode w \<noteq> None"
    by (auto simp: GPIO_setup_def GPIO_setup1_def split: if_splits)
  with s1 have c1: "setup_channel ch d ini w0 = (Inr (), w1)"
    by (auto simp: GPIO_setup_def GPIO_setup1_def w0_def)
  have w0: "mode w0 = mode w" "custom_pin_map w0 = custom_pin_map w"
    by (simp_all add: w0_def warn_frame)
  from setup_channel_ok [OF c1] w0 obtain p where
    w1: "exports w1 = exports w0 @ [(ch, d)]" "mode w1 = mode w"
      "custom_pin_map w1 = custom_pin_map w"
    and p: "get_gpio_pin w0 (mode w) ch = Inr p"
    by auto
  define w1' where "w1' = (if pud \<noteq> None \<and> gpio_warnings w1 then warn PullUpDownUnsupported w1 else w1)"
  have w1': "exports w1' = exports w1" "mode w1' = mode w" "custom_pin_map w1' = custom_pin_map w"
    using w1 by (simp_all add: w1'_def warn_frame)
  have in1: "ch \<in> fst ` set (exports w1')" using w1 w1' by force
  from m w1 have m1: "mode w1 \<noteq> None" by simp
  have "GPIO_setup (One ch) d ini pud w1 = (Inl (AlreadyConfigured ch), w1')"
    using m1 in1 by (auto simp: GPIO_setup_def GPIO_setup1_def setup_channel_def w1'_def)
  with s2 have r2: "r2 = Inl (AlreadyConfigured ch)" and w2: "w2 = w1'" by simp_all
  from s3 have c3: "GPIO_cleanup1 ch w2 = (r3, w3)" by (simp add: GPIO_cleanup_def)
  have p2: "get_gpio_pin w2 (mode w2) ch = Inr p"
    using p w2 w1' w0 get_gpio_pin_cong [of w2 w0 "mode w" ch] by simp
  have in2: "ch \<in> fst ` set (exports w2)" using in1 w2 by simp
  have t3: "r3 = Inr ()" if "fault_at (faults w2) 0 = None \<and> fault_at (faults w2) 1 = None"
    using cleanup1_succeeds [OF in2 p2, of] that c3 by simp
  have rest: "r4 \<noteq> Inl (AlreadyConfigured ch)
      \<and> (unfailing (faults w3) \<longrightarrow> r4 = Inr () \<and> map_of (exports w4) ch = Some d)"
    if r3: "r3 = Inr ()"
  proof -
    from c3 r3 have c3': "GPIO_cleanup1 ch w2 = (Inr (), w3)" by simp
    from cleanup1_ok [OF c3'] w2 w1' have
      w3: "exports w3 = filter (\<lambda>kv. fst kv \<noteq> ch) (exports w2)" "mode w3 = mode w"
        "custom_pin_map w3 = custom_pin_map w"
      by simp_all
    define w3' where "w3' = (if pud \<noteq> None \<and> gpio_warnings w3 then warn PullUpDownUnsupported w3 else w3)"
    have w3': "exports w3' = exports w3" "mode w3' = mode w" "custom_pin_map w3' = custom_pin_map w"
      "faults w3' = faults w3"
      using w3 by (simp_all add: w3'_def warn_frame)
    have nin: "ch \<notin> fst ` set (exports w3')" using w3 w3' by auto
    have p3: "get_gpio_pin w3' (mode w3') ch = Inr p"
      using p w3' w0 get_gpio_pin_cong [of w3' w0 "mode w" ch] by simp
    have eq: "GPIO_setup (One ch) d ini pud w3 = setup_channel ch d ini w3'"
      using m w3 by (auto simp: GPIO_setup_def GPIO_setup1_def w3'_def)
    with s4 have c4: "setup_channel ch d ini w3' = (r4, w4)" by simp
    have a: "r4 \<noteq> Inl (AlreadyConfigured ch)"
      using setup_channel_not_already [OF nin, of d ini ch] c4 by simp
    have b: "r4 = Inr () \<and> map_of (exports w4) ch = Some d" if ok: "unfailing (faults w3)"
    proof -
      have f: "fault_at (faults w3') i = None" for i
        using unfailing_fault_at [OF ok, of i] w3' by simp
      have "fst (setup_channel ch d ini w3') = Inr ()"
        by (rule setup_channel_succeeds [OF nin p3 f f f])
      with c4 have r4: "r4 = Inr ()" by simp
      with c4 have c4': "setup_channel ch d ini w3' = (Inr (), w4)" by simp
      from setup_channel_ok [OF c4'] nin have "map_of (exports w4) ch = Some d"
        by (simp add: map_of_eq_None_iff [symmetric] map_add_Some_iff)
      with r4 show ?thesis by simp
    qed
    from a b show ?thesis by simp
  qed
  from r2 t3 rest show ?thesis by blast
qed

theorem configure_twice_then_teardown_witness:
  "fst (GPIO_setup (One 7) IN None None
          (initial\<lparr>mode := Some BOARD, exports := [(7, IN)],
                    trace := [Call (Export 54) None, Call (Direction 54 IN) None]\<rparr>))
     = Inl (AlreadyConfigured 7)
   \<and> fst (GPIO_cleanup (Some (One 7))
          (initial\<lparr>mode := Some BOARD, exports := [(7, IN)],
                    trace := [Call (Export 54) None, Call (Direction 54 IN) None]\<rparr>))
     = Inr ()
   \<and> GPIO_setup (One 7) IN None None
          (initial\<lparr>mode := Some BOARD,
                    trace := [Call (Export 54) None, Call (Direction 54 IN) None,
                              Call (Event_cleanup 54) None, Call (Unexport 54) None]\<rparr>)
     = (Inr (),
        initial\<lparr>mode := Some BOARD, exports := [(7, IN)],
                 trace := [Call (Export 54) None, Call (Direction 54 IN) None,
                           Call (Event_cleanup 54) None, Call (Unexport 54) None,
                           Call (Export 54) None, Call (Direction 54 IN) None]\<rparr>)"
proof -
  have h1: "GPIO_setup (One 7) IN None None (initial\<lparr>mode := Some BOARD\<rparr>)
     = (Inr (), initial\<lparr>mode := Some BOARD, exports := [(7, IN)],
                        trace := [Call (Export 54) None, Call (Direction 54 IN) None]\<rparr>)"
    by code_simp
  have h2: "GPIO_setup (One 7) IN None None
       (initial\<lparr>mode := Some BOARD, exports := [(7, IN)],
                 trace := [Call (Export 54) None, Call (Direction 54 IN) None]\<rparr>)
     = (Inl (AlreadyConfigured 7),
        initial\<lparr>mode := Some BOARD, exports := [(7, IN)],
                 trace := [Call (Export 54) None, Call (Direction 54 IN) None]\<rparr>)"
    by code_simp
  have h3: "GPIO_cleanup (Some (One 7))
       (initial\<lparr>mode := Some BOARD, exports := [(7, IN)],
                 trace := [Call (Export 54) None, Call (Direction 54 IN) None]\<rparr>)
     = (Inr (), initial\<lparr>mode := Some BOARD,
                    trace := [Call (Export 54) None, Call (Direction 54 IN) None,
                              Call (Event_cleanup 54) None, Call (Unexport 54) None]\<rparr>)"
    by code_simp
  have h4: "GPIO_setup (One 7) IN None None
          (initial\<lparr>mode := Some BOARD,
                    trace := [Call (Export 54) None, Call (Direction 54 IN) None,
                              Call (Event_cleanup 54) None, Call (Unexport 54) None]\<rparr>)
     = (Inr (),
        initial\<lparr>mode := Some BOARD, exports := [(7, IN)],
                 trace := [Call (Export 54) None, Call (Direction 54 IN) None,
                           Call (Event_cleanup 54) None, Call (Unexport 54) None,
                           Call (Export 54) None, Call (Direction 54 IN) None]\<rparr>)"
    by code_simp
  show ?thesis
    using configure_twice_then_teardown [OF h1 h2 h3 h4] h2 h3 h4 by simp
qed

section \<open>A busy pin at export\<close>

text \<open>
  C5. In \<^verbatim>\<open>setup\<close>, for a channel that reaches the export (scheme set, channel free and
  translated to pin \<open>p\<close>): when the export fails with an error other than 16, that error
  propagates and nothing else is called; when it fails with 16 (busy), the warning is
  emitted if warnings are enabled, the pin is unexported and the export is tried once
  more. If that second export fails, with 16 or with anything else, its error
  propagates with no further attempt; if it succeeds, \<^verbatim>\<open>setup\<close> goes on to set the
  direction and record the channel.
\<close>

theorem busy_export_is_retried_once:
  assumes "mode w \<noteq> None" and "ch \<notin> fst ` set (exports w)"
    and "get_gpio_pin w (mode w) ch = Inr p"
  shows "(fault_at (faults w) 0 = Some e \<and> e \<noteq> 16 \<longrightarrow>
            GPIO_setup (One ch) d ini None w
              = (Inl (OSError e),
                 w\<lparr>faults := drop 1 (faults w),
                    trace := trace w @ [Call (Export p) (Some e)]\<rparr>))
       \<and> (fault_at (faults w) 0 = Some 16 \<and> fault_at (faults w) 1 = None
            \<and> fault_at (faults w) 2 = Some e \<longrightarrow>
            GPIO_setup (One ch) d ini None w
              = (Inl (OSError e),
                 w\<lparr>faults := drop 3 (faults w),
                    trace := trace w @ [Call (Export p) (Some 16)]
                      @ (if gpio_warnings w then [Warn (ChannelInUse ch)] else [])
                      @ [Call (Unexport p) None, Call (Export p) (Some e)]\<rparr>))
       \<and> (fault_at (faults w) 0 = Some 16 \<and> fault_at (faults w) 1 = None
            \<and> fault_at (faults w) 2 = None \<and> fault_at (faults w) 3 = None \<longrightarrow>
            GPIO_setup (One ch) d None None w
              = (Inr (),
                 w\<lparr>faults := drop 4 (faults w),
                    exports := exports w @ [(ch, d)],
                    trace := trace w @ [Call (Export p) (Some 16)]
                      @ (if gpio_warnings w then [Warn (ChannelInUse ch)] else [])
                      @ [Call (Unexport p) None, Call (Export p) None,
                         Call (Direction p d) None]\<rparr>))"
  using assms
  by (auto simp: GPIO_setup_def GPIO_setup1_def setup_channel_def export_or_retry_def
      sysfs_def Let_def warn_def drop_Suc eval_nat_numeral)


theorem busy_export_is_retried_once_witness:
  "GPIO_setup (One 7) IN None None (initial\<lparr>mode := Some BOARD, faults := [Some 5]\<rparr>)
     = (Inl (OSError 5),
        initial\<lparr>mode := Some BOARD, faults := [], trace := [Call (Export 54) (Some 5)]\<rparr>)
   \<and> GPIO_setup (One 7) IN None None
        (initial\<lparr>mode := Some BOARD, faults := [Some 16, None, Some 16]\<rparr>)
     = (Inl (OSError 16),
        initial\<lparr>mode := Some BOARD, faults := [],
                 trace := [Call (Export 54) (Some 16), Warn (ChannelInUse 7),
                           Call (Unexport 54) None, Call (Export 54) (Some 16)]\<rparr>)
   \<and> GPIO_setup (One 7) IN None None
        (initial\<lparr>mode := Some BOARD, gpio_warnings := False, faults := [Some 16]\<rparr>)
     = (Inr (),
        initial\<lparr>mode := Some BOARD, gpio_warnings := False, faults := [],
                 exports := [(7, IN)],
                 trace := [Call (Export 54) (Some 16), Call (Unexport 54) None,
                           Call (Export 54) None, Call (Direction 54 IN) None]\<rparr>)"
proof -
  have g: "get_gpio_pin w (Some BOARD) 7 = Inr 54" for w
    by (simp add: get_gpio_pin_def pin_map_def board_map_def)
  show ?thesis
    using
      busy_export_is_retried_once [where w = "initial\<lparr>mode := Some BOARD, faults := [Some 5]\<rparr>"
        and ch = 7 and p = 54 and e = 5 and d = IN and ini = None]
      busy_export_is_retried_once [where w = "initial\<lparr>mode := Some BOARD,
          faults := [Some 16, None, Some 16]\<rparr>"
        and ch = 7 and p = 54 and e = 16 and d = IN and ini = None]
      busy_export_is_retried_once [where w = "initial\<lparr>mode := Some BOARD,
          gpio_warnings := False, faults := [Some 16]\<rparr>"
        and ch = 7 and p = 54 and e = 16 and d = IN and ini = None]
    by (simp add: g initial_def eval_nat_numeral)
qed

section \<open>Teardown of everything\<close>

text \<open>
  C6. When \<^verbatim>\<open>cleanup()\<close> with no argument returns, no channel is left in the registry;
  every channel that was configured translated to a pin and, in registration order, the
  edge watcher of that pin was cleaned up and the pin unexported, and nothing else was
  asked of the file layer; warnings are enabled; and no numbering
  scheme is active, so that any \<^verbatim>\<open>setup\<close> now fails with "mode has not been set". It does
  return whenever every configured channel translates under the active scheme and the
  file layer's calls go through.
\<close>

theorem cleanup_without_argument:
  "(GPIO_cleanup None w = (Inr (), w') \<longrightarrow>
      exports w' = [] \<and> gpio_warnings w' \<and> mode w' = None
      \<and> (\<forall>ch\<in>fst ` set (exports w). \<exists>p. get_gpio_pin w (mode w) ch = Inr p)
      \<and> issued w (GPIO_cleanup None w) = concat (map (teardown_calls w) (map fst (exports w)))
      \<and> GPIO_setup c d ini pud w' = (Inl NotInitialized, w'))
   \<and> (distinct (map fst (exports w))
        \<and> (\<forall>ch\<in>fst ` set (exports w). \<exists>p. get_gpio_pin w (mode w) ch = Inr p)
        \<and> unfailing (faults w) \<longrightarrow>
      fst (GPIO_cleanup None w) = Inr ())"
proof (intro conjI impI)
  assume a: "GPIO_cleanup None w = (Inr (), w')"
  obtain r1 w1 where e1: "cleanup_each (map fst (exports w)) w = (r1, w1)"
    by (cases "cleanup_each (map fst (exports w)) w")
  with a have r1: "r1 = Inr ()" and w': "w' = (setwarnings True w1)\<lparr>mode := None\<rparr>"
    by (cases r1; simp add: GPIO_cleanup_def)+
  from cleanup_each_result [of "map fst (exports w)" w w1] e1 r1 have
    x: "exports w1 = filter (\<lambda>kv. fst kv \<notin> fst ` set (exports w)) (exports w)"
    and t: "trace w1 = trace w @ concat (map (teardown_calls w) (map fst (exports w)))"
    and g: "\<forall>ch\<in>fst ` set (exports w). \<exists>p. get_gpio_pin w (mode w) ch = Inr p"
    by simp_all
  have "exports w1 = []" unfolding x by (simp add: filter_empty_conv)
  then show "exports w' = []" by (simp add: w' setwarnings_def)
  show "gpio_warnings w'" by (simp add: w' setwarnings_def)
  show m: "mode w' = None" by (simp add: w')
  show "\<forall>ch\<in>fst ` set (exports w). \<exists>p. get_gpio_pin w (mode w) ch = Inr p" by (rule g)
  show "issued w (GPIO_cleanup None w) = concat (map (teardown_calls w) (map fst (exports w)))"
    using t by (simp add: a issued_def w' setwarnings_def)
  show "GPIO_setup c d ini pud w' = (Inl NotInitialized, w')"
    using m by (cases c) (simp_all add: GPIO_setup_def GPIO_setup1_def)
next
  assume "distinct (map fst (exports w))
        \<and> (\<forall>ch\<in>fst ` set (exports w). \<exists>p. get_gpio_pin w (mode w) ch = Inr p)
        \<and> unfailing (faults w)"
  then have "fst (cleanup_each (map fst (exports w)) w) = Inr ()"
    by (intro cleanup_each_succeeds) simp_all
  then show "fst (GPIO_cleanup None w) = Inr ()"
    by (cases "cleanup_each (map fst (exports w)) w") (simp add: GPIO_cleanup_def)
qed

theorem cleanup_without_argument_witness:
  "fst (GPIO_cleanup None
          (initial\<lparr>mode := Some BOARD, gpio_warnings := False,
                    exports := [(11, OUT), (12, IN)]\<rparr>)) = Inr ()
   \<and> snd (GPIO_cleanup None
          (initial\<lparr>mode := Some BOARD, gpio_warnings := False,
                    exports := [(11, OUT), (12, IN)]\<rparr>))
       = initial\<lparr>trace := [Call (Event_cleanup 138) None, Call (Unexport 138) None,
                            Call (Event_cleanup 29) None, Call (Unexport 29) None]\<rparr>
   \<and> fst (GPIO_setup (One 11) OUT None None
          (initial\<lparr>trace := [Call (Event_cleanup 138) None, Call (Unexport 138) None,
                               Call (Event_cleanup 29) None, Call (Unexport 29) None]\<rparr>))
       = Inl NotInitialized"
proof -
  have h: "GPIO_cleanup None
          (initial\<lparr>mode := Some BOARD, gpio_warnings := False,
                    exports := [(11, OUT), (12, IN)]\<rparr>)
     = (Inr (), initial\<lparr>trace := [Call (Event_cleanup 138) None, Call (Unexport 138) None,
                            Call (Event_cleanup 29) None, Call (Unexport 29) None]\<rparr>)"
    by code_simp
  show ?thesis
    using h cleanup_without_argument [where w = "initial\<lparr>mode := Some BOARD,
          gpio_warnings := False, exports := [(11, OUT), (12, IN)]\<rparr>"
        and w' = "initial\<lparr>trace := [Call (Event_cleanup 138) None, Call (Unexport 138) None,
                            Call (Event_cleanup 29) None, Call (Unexport 29) None]\<rparr>"
        and c = "One 11" and d = OUT and ini = None and pud = None]
    by simp
qed

section \<open>Warnings and the toggle\<close>

text \<open>
  C7. Every advisory warning should be suppressed while the toggle is off. With the
  toggle off and the PWM export busy, the constructor of \<^verbatim>\<open>PWM\<close> still emits its
  warning (and then goes on to unexport and export again): it calls \<^verbatim>\<open>warnings.warn\<close>
  without looking at \<^verbatim>\<open>_gpio_warnings\<close>. \<^verbatim>\<open>setup\<close>, in the same situation, emits none.
\<close>

theorem pwm_warning_ignores_the_toggle:
  "\<not> gpio_warnings (initial\<lparr>gpio_warnings := False, faults := [Some 16]\<rparr>)
   \<and> issued (initial\<lparr>gpio_warnings := False, faults := [Some 16]\<rparr>)
       (PWM_init 0 0 1000 50 False (initial\<lparr>gpio_warnings := False, faults := [Some 16]\<rparr>))
     = [Call (PWM_Export 0 0) (Some 16), Warn (PinInUse 0), Call (PWM_Unexport 0 0) None,
        Call (PWM_Export 0 0) None]
   \<and> occurs is_warning
       (issued (initial\<lparr>gpio_warnings := False, faults := [Some 16]\<rparr>)
          (PWM_init 0 0 1000 50 False (initial\<lparr>gpio_warnings := False, faults := [Some 16]\<rparr>)))
   \<and> issued (initial\<lparr>mode := Some BOARD, gpio_warnings := False, faults := [Some 16]\<rparr>)
       (GPIO_setup (One 7) IN None None
          (initial\<lparr>mode := Some BOARD, gpio_warnings := False, faults := [Some 16]\<rparr>))
     = [Call (Export 54) (Some 16), Call (Unexport 54) None, Call (Export 54) None,
        Call (Direction 54 IN) None]"
  by code_simp

text \<open>
  The other warnings do follow the toggle. While it is off, \<^verbatim>\<open>setup\<close> (one channel or a
  list), \<^verbatim>\<open>add_event_detect\<close> and \<^verbatim>\<open>add_event_callback\<close> add no warning to the log.
  Whatever the toggle says, each of the three returns the result, issues the file
  operations and leaves the registry that it would with the toggle off and the option
  omitted, so no warning aborts a call.
\<close>

lemma gpio_warnings_follow_the_toggle:
  "(\<not> gpio_warnings w \<longrightarrow>
      warnings_of (trace (snd (GPIO_setup c d ini pud w))) = warnings_of (trace w)
      \<and> warnings_of (trace (snd (add_event_detect ch trg cb bt w))) = warnings_of (trace w)
      \<and> warnings_of (trace (snd (add_event_callback ch cb bt w))) = warnings_of (trace w))
   \<and> fst (GPIO_setup c d ini pud w) = fst (GPIO_setup c d ini None (quiet w))
   \<and> quiet (snd (GPIO_setup c d ini pud w)) = snd (GPIO_setup c d ini None (quiet w))
   \<and> fst (add_event_detect ch trg cb bt w) = fst (add_event_detect ch trg cb None (quiet w))
   \<and> quiet (snd (add_event_detect ch trg cb bt w))
       = snd (add_event_detect ch trg cb None (quiet w))
   \<and> fst (add_event_callback ch cb bt w) = fst (add_event_callback ch cb None (quiet w))
   \<and> quiet (snd (add_event_callback ch cb bt w))
       = snd (add_event_callback ch cb None (quiet w))"
proof (intro conjI impI)
  assume off: "\<not> gpio_warnings w"
  show "warnings_of (trace (snd (GPIO_setup c d ini pud w))) = warnings_of (trace w)"
    using setup_silent [OF off, of c d ini pud] by (simp add: silent_def)
  show "warnings_of (trace (snd (add_event_detect ch trg cb bt w))) = warnings_of (trace w)"
    using add_event_detect_silent [OF off, of ch trg cb bt] by (simp add: silent_def)
  show "warnings_of (trace (snd (add_event_callback ch cb bt w))) = warnings_of (trace w)"
    using add_event_callback_silent [OF off, of ch cb bt] by (simp add: silent_def)
next
  show "fst (GPIO_setup c d ini pud w) = fst (GPIO_setup c d ini None (quiet w))"
    by (simp add: setup_quiet [of c d ini None w pud])
  show "quiet (snd (GPIO_setup c d ini pud w)) = snd (GPIO_setup c d ini None (quiet w))"
    by (simp add: setup_quiet [of c d ini None w pud])
  show "fst (add_event_detect ch trg cb bt w) = fst (add_event_detect ch trg cb None (quiet w))"
    by (simp add: add_event_detect_quiet [of ch trg cb None w bt])
  show "quiet (snd (add_event_detect ch trg cb bt w))
       = snd (add_event_detect ch trg cb None (quiet w))"
    by (simp add: add_event_detect_quiet [of ch trg cb None w bt])
  show "fst (add_event_callback ch cb bt w) = fst (add_event_callback ch cb None (quiet w))"
    by (simp add: add_event_callback_quiet [of ch cb None w bt])
  show "quiet (snd (add_event_callback ch cb bt w))
       = snd (add_event_callback ch cb None (quiet w))"
    by (simp add: add_event_callback_quiet [of ch cb None w bt])
qed

section \<open>PWM polarity\<close>

text \<open>
  C8. Each call of \<^verbatim>\<open>pwm_polarity\<close> disables the output, writes the polarity and enables
  the output again, in that order. The polarity written is the negation of the field
  \<^verbatim>\<open>invert_polarity\<close>, which no method updates: on an object built with
  \<^verbatim>\<open>invert_polarity=False\<close> the first call writes \<open>True\<close> and the second call writes
  \<open>True\<close> again, so two calls do not bring the original polarity back.
\<close>

theorem pwm_polarity_twice_stays_inverted:
  "PWM_init 0 0 1000 50 False initial
     = (Inr pwm_1kHz,
        initial\<lparr>trace := [Call (PWM_Export 0 0) None, Call (PWM_Polarity 0 0 False) None,
                           Call (PWM_Enable 0 0) None, Call (PWM_Frequency 0 0 1000) None]\<rparr>)
   \<and> fst (pwm_polarity pwm_1kHz (snd (PWM_init 0 0 1000 50 False initial))) = Inr pwm_1kHz
   \<and> issued (snd (PWM_init 0 0 1000 50 False initial))
        (pwm_polarity pwm_1kHz
           (snd (pwm_polarity pwm_1kHz (snd (PWM_init 0 0 1000 50 False initial)))))
       = [Call (PWM_Disable 0 0) None, Call (PWM_Polarity 0 0 True) None,
          Call (PWM_Enable 0 0) None,
          Call (PWM_Disable 0 0) None, Call (PWM_Polarity 0 0 True) None,
          Call (PWM_Enable 0 0) None]
   \<and> active_polarity (trace (snd (PWM_init 0 0 1000 50 False initial))) = Some False
   \<and> active_polarity (trace (snd
        (pwm_polarity pwm_1kHz
           (snd (pwm_polarity pwm_1kHz (snd (PWM_init 0 0 1000 50 False initial))))))) = Some True"
  by code_simp

section \<open>Reading a channel configured for output\<close>

text \<open>
  C9. \<^verbatim>\<open>input(channel)\<close> never fails with "configured for input/output": its guard
  passes exactly when the channel is in the registry, whatever its direction. On a
  channel whose record says OUT, whose translation gives pin \<open>p\<close>, and whose read goes
  through, it returns the level of pin \<open>p\<close>.
\<close>

theorem input_ignores_direction:
  "fst (GPIO_input ch w) \<noteq> Inl (WrongDirection c d)
   \<and> (check_configured w ch None = None) = (map_of (exports w) ch \<noteq> None)
   \<and> (map_of (exports w) ch = Some OUT \<and> get_gpio_pin w (mode w) ch = Inr p
        \<and> fault_at (faults w) 0 = None \<longrightarrow>
      GPIO_input ch w
        = (Inr (p \<in> high w),
           w\<lparr>faults := tl (faults w), trace := trace w @ [Call (Input p) None]\<rparr>))"
proof (intro conjI impI)
  show "fst (GPIO_input ch w) \<noteq> Inl (WrongDirection c d)"
    by (auto simp: GPIO_input_def check_configured_def get_gpio_pin_def sysfs_def Let_def
        split: option.splits sum.splits)
  show "(check_configured w ch None = None) = (map_of (exports w) ch \<noteq> None)"
    by (simp add: check_configured_def split: option.splits)
  assume "map_of (exports w) ch = Some OUT \<and> get_gpio_pin w (mode w) ch = Inr p
        \<and> fault_at (faults w) 0 = None"
  then show "GPIO_input ch w
        = (Inr (p \<in> high w),
           w\<lparr>faults := tl (faults w), trace := trace w @ [Call (Input p) None]\<rparr>)"
    by (simp add: GPIO_input_def check_configured_def sysfs_ok)
qed


theorem input_ignores_direction_witness:
  "GPIO_input 11 (initial\<lparr>mode := Some BOARD, exports := [(11, OUT)], high := {138}\<rparr>)
     = (Inr True,
        initial\<lparr>mode := Some BOARD, exports := [(11, OUT)], high := {138},
                 trace := [Call (Input 138) None]\<rparr>)"
  using input_ignores_direction [where
      w = "initial\<lparr>mode := Some BOARD, exports := [(11, OUT)], high := {138}\<rparr>"
      and ch = 11 and p = 138]
  by (simp add: initial_def get_gpio_pin_def pin_map_def board_map_def)

section \<open>A failed configuration leaves the registry alone\<close>

text \<open>
  C10. For a single channel: if \<^verbatim>\<open>setup(channel, direction)\<close> raises, for whatever reason
  (no scheme, channel already configured, translation failure, an I/O failure of the
  export, of the forced unexport, of the retried export or of setting the direction),
  the registry is what it was before the call. This covers every call without an
  initial value and every call for an input.
\<close>

theorem setup_failure_keeps_registry:
  assumes "fst (GPIO_setup (One ch) d ini pud w) = Inl e" and "ini = None \<or> d = IN"
  shows "exports (snd (GPIO_setup (One ch) d ini pud w)) = exports w"
  using assms setup1_fail_exports [of ch d ini pud w e] by (simp add: GPIO_setup_def)

theorem setup_failure_keeps_registry_witness:
  "fst (GPIO_setup (One 7) IN None None
          (initial\<lparr>mode := Some BOARD, exports := [(11, OUT)], faults := [None, Some 5]\<rparr>))
     = Inl (OSError 5)
   \<and> exports (snd (GPIO_setup (One 7) IN None None
          (initial\<lparr>mode := Some BOARD, exports := [(11, OUT)], faults := [None, Some 5]\<rparr>)))
     = [(11, OUT)]"
proof -
  have h: "fst (GPIO_setup (One 7) IN None None
          (initial\<lparr>mode := Some BOARD, exports := [(11, OUT)], faults := [None, Some 5]\<rparr>))
     = Inl (OSError 5)"
    by code_simp
  show ?thesis
    using h setup_failure_keeps_registry [OF h] by simp
qed

end
